theory Spec2Isabelle
  imports Main
begin

section \<open>Data model\<close>

text \<open>
  \<^verbatim>\<open>enum LOG_TYPE {INFO = 0, WARNING = 1, ERROR = 2, FATAL = 3};\<close> (logger.h, line 25).
  The enumeration has no fixed underlying type, so its values are exactly the four
  enumerators: a closed datatype.
\<close>

datatype LOG_TYPE = INFO | WARNING | ERROR | FATAL

text \<open>
  The only exception the code can raise is \<^verbatim>\<open>std::out_of_range\<close>, thrown by
  \<^verbatim>\<open>std::unordered_map::at\<close> on a missing key.
\<close>

datatype error = out_of_range

text \<open>
  The private members of \<^verbatim>\<open>class Logger\<close> (logger.h, lines 57-63); the trailing
  underscore of the member names is dropped. Both \<^verbatim>\<open>std::unordered_map\<close>s are
  partial maps, the \<^verbatim>\<open>std::vector\<close> is a list in insertion order.
\<close>

record Logger =
  flags_logs_enabled :: "LOG_TYPE \<rightharpoonup> bool"
  logs_headers :: "LOG_TYPE \<rightharpoonup> string"
  separator :: string
  newline :: string
  buffer :: "string list"

text \<open>The static members of \<^verbatim>\<open>class SLogger\<close> (logger.h, lines 229-233).\<close>

record SLogger =
  INFO_ENABLED_FLAG :: bool
  WARNING_ENABLED_FLAG :: bool
  ERROR_ENABLED_FLAG :: bool
  FATAL_ENABLED_FLAG :: bool
  NEWLINE :: string

section \<open>The standard library as the code uses it\<close>

subsection \<open>unordered_map\<close>

text \<open>\<^verbatim>\<open>m.at(k)\<close>: the mapped value, or \<^verbatim>\<open>std::out_of_range\<close> when the key is absent.\<close>

definition map_at :: "('k \<rightharpoonup> 'v) \<Rightarrow> 'k \<Rightarrow> error + 'v" where
  "map_at m k = (case m k of None \<Rightarrow> Inl out_of_range | Some v \<Rightarrow> Inr v)"

text \<open>
  \<^verbatim>\<open>m[k]\<close> read as a value: an absent key is first inserted with the value-initialised
  mapped value \<open>d\<close> (\<^verbatim>\<open>false\<close> for \<^verbatim>\<open>bool\<close>, the empty string for
  \<^verbatim>\<open>std::string\<close>). The result is the value read and the map afterwards.
\<close>

definition map_index :: "('k \<rightharpoonup> 'v) \<Rightarrow> 'k \<Rightarrow> 'v \<Rightarrow> 'v \<times> ('k \<rightharpoonup> 'v)" where
  "map_index m k d = (case m k of None \<Rightarrow> (d, m(k \<mapsto> d)) | Some v \<Rightarrow> (v, m))"

subsection \<open>Output streams\<close>

text \<open>
  A \<^verbatim>\<open>std::ostream\<close> in good state is the sequence of characters written to it so far;
  \<^verbatim>\<open>os << s\<close> for a \<^verbatim>\<open>std::string\<close> or a string literal appends all of
  \<open>s\<close>.
\<close>

type_synonym ostream = string

definition ostream_put :: "string \<Rightarrow> ostream \<Rightarrow> ostream" where
  "ostream_put s os = os @ s"

text \<open>
  \<^verbatim>\<open>s.c_str()\<close> handed to an \<^verbatim>\<open>operator<<(const char *)\<close>: the receiver reads a
  NUL-terminated string, that is the characters of \<open>s\<close> before its first NUL.
\<close>

definition c_str :: "string \<Rightarrow> string" where
  "c_str s = takeWhile (\<lambda>c. c \<noteq> CHR 0x00) s"

subsection \<open>Files\<close>

text \<open>
  The file system the code writes to: the contents of the files that exist, and which
  names \<^verbatim>\<open>std::ofstream\<close> can open for writing. The two open modes are the ones the
  specification recognises: \<^verbatim>\<open>std::ios_base::out\<close> (the default, truncating) and
  \<^verbatim>\<open>std::ios_base::app\<close> (appending).
\<close>

datatype openmode = ios_out | ios_app

record file_system =
  files :: "string \<rightharpoonup> string"
  can_open :: "string \<Rightarrow> bool"

text \<open>
  What an opened file holds before the first write: nothing under \<open>ios_out\<close>, what it
  held before (nothing when it did not exist) under \<open>ios_app\<close>.
\<close>

definition opened_contents :: "openmode \<Rightarrow> string option \<Rightarrow> string" where
  "opened_contents mode before =
     (case mode of ios_out \<Rightarrow> [] | ios_app \<Rightarrow> (case before of None \<Rightarrow> [] | Some old \<Rightarrow> old))"

text \<open>
  \<^verbatim>\<open>std::ofstream ofs(file_name, mode); if(!ofs) ...\<close>: \<open>None\<close> when the open
  fails (the file system is then as before), otherwise the file system in which the file
  exists with its opened contents.
\<close>

definition ofstream_open :: "string \<Rightarrow> openmode \<Rightarrow> file_system \<Rightarrow> file_system option" where
  "ofstream_open file_name mode fs =
     (if can_open fs file_name
      then Some (fs\<lparr>files := (files fs)(file_name \<mapsto> opened_contents mode (files fs file_name))\<rparr>)
      else None)"

text \<open>\<^verbatim>\<open>ofs << s\<close> on the stream opened on \<open>file_name\<close>.\<close>

definition ofstream_put :: "string \<Rightarrow> string \<Rightarrow> file_system \<Rightarrow> file_system" where
  "ofstream_put file_name s fs =
     fs\<lparr>files := (files fs)(file_name \<mapsto>
       (case files fs file_name of None \<Rightarrow> s | Some old \<Rightarrow> old @ s))\<rparr>"

section \<open>Logger\<close>

subsection \<open>Constructors\<close>

text \<open>\<^verbatim>\<open>Logger::Logger()\<close> (logger.cpp, lines 8-11).\<close>

definition Logger_init :: Logger where
  "Logger_init =
     \<lparr>flags_logs_enabled = [INFO \<mapsto> True, WARNING \<mapsto> True, ERROR \<mapsto> True, FATAL \<mapsto> True],
      logs_headers = [INFO \<mapsto> ''[INFO]'', WARNING \<mapsto> ''[WARNING]'',
                      ERROR \<mapsto> ''[ERROR]'', FATAL \<mapsto> ''[FATAL]''],
      separator = '' - '',
      newline = [CHR 0x0A],
      buffer = []\<rparr>"

text \<open>
  \<^verbatim>\<open>buffer_.reserve(n)\<close> changes the capacity of the vector only; a list has no capacity,
  so the elements are returned as they are.
\<close>

definition vector_reserve :: "nat \<Rightarrow> 'a list \<Rightarrow> 'a list" where
  "vector_reserve n xs = xs"

text \<open>\<^verbatim>\<open>Logger::Logger(std::size_t buffer_min_capacity) : Logger()\<close> (logger.cpp, lines 12-15).\<close>

definition Logger_init_capacity :: "nat \<Rightarrow> Logger" where
  "Logger_init_capacity buffer_min_capacity =
     Logger_init\<lparr>buffer := vector_reserve buffer_min_capacity (buffer Logger_init)\<rparr>"

subsection \<open>Flags\<close>

text \<open>\<^verbatim>\<open>flags_logs_enabled_[log_type] = enabled;\<close> (logger.cpp, lines 18-21).\<close>

definition Logger_setEnabled :: "LOG_TYPE \<Rightarrow> bool \<Rightarrow> Logger \<Rightarrow> Logger" where
  "Logger_setEnabled log_type enabled L =
     L\<lparr>flags_logs_enabled := (flags_logs_enabled L)(log_type \<mapsto> enabled)\<rparr>"

text \<open>
  The loop over the entries of the map (logger.cpp, lines 22-26): every entry that exists
  gets the value, no entry is added.
\<close>

definition Logger_setEnabledAll :: "bool \<Rightarrow> Logger \<Rightarrow> Logger" where
  "Logger_setEnabledAll enabled L =
     L\<lparr>flags_logs_enabled := (\<lambda>k. map_option (\<lambda>_. enabled) (flags_logs_enabled L k))\<rparr>"

text \<open>\<^verbatim>\<open>return flags_logs_enabled_.at(log_type);\<close> (logger.cpp, lines 27-30).\<close>

definition Logger_isEnabled :: "Logger \<Rightarrow> LOG_TYPE \<Rightarrow> error + bool" where
  "Logger_isEnabled L log_type = map_at (flags_logs_enabled L) log_type"

subsection \<open>Format\<close>

definition Logger_setHeader :: "LOG_TYPE \<Rightarrow> string \<Rightarrow> Logger \<Rightarrow> Logger" where
  "Logger_setHeader log_type header L =
     L\<lparr>logs_headers := (logs_headers L)(log_type \<mapsto> header)\<rparr>"

definition Logger_header :: "Logger \<Rightarrow> LOG_TYPE \<Rightarrow> error + string" where
  "Logger_header L log_type = map_at (logs_headers L) log_type"

definition Logger_setSeparator :: "string \<Rightarrow> Logger \<Rightarrow> Logger" where
  "Logger_setSeparator sep L = L\<lparr>separator := sep\<rparr>"

definition Logger_separator :: "Logger \<Rightarrow> string" where
  "Logger_separator L = separator L"

definition Logger_setNewline :: "string \<Rightarrow> Logger \<Rightarrow> Logger" where
  "Logger_setNewline nl L = L\<lparr>newline := nl\<rparr>"

definition Logger_newline :: "Logger \<Rightarrow> string" where
  "Logger_newline L = newline L"

subsection \<open>Log and dump\<close>

text \<open>
  The buffered \<^verbatim>\<open>Logger::log(log_type, message)\<close> (logger.cpp, lines 59-63). It is not
  \<^verbatim>\<open>const\<close> and reads both maps with \<^verbatim>\<open>operator[]\<close>, which inserts an absent key.
\<close>

definition Logger_log :: "LOG_TYPE \<Rightarrow> string \<Rightarrow> Logger \<Rightarrow> Logger" where
  "Logger_log log_type message L =
     (let (enabled, flags') = map_index (flags_logs_enabled L) log_type False;
          L1 = L\<lparr>flags_logs_enabled := flags'\<rparr>
      in if enabled
         then (let (header, headers') = map_index (logs_headers L1) log_type [];
                   L2 = L1\<lparr>logs_headers := headers'\<rparr>
               in L2\<lparr>buffer := buffer L2 @ [header @ separator L2 @ message]\<rparr>)
         else L1)"

text \<open>
  \<^verbatim>\<open>Logger::log(log_type, message, os) const\<close> (logger.cpp, lines 64-68). Both lookups
  are \<^verbatim>\<open>at\<close>; the header is looked up before the first character is written.
\<close>

definition Logger_log_os :: "LOG_TYPE \<Rightarrow> string \<Rightarrow> Logger \<Rightarrow> ostream \<Rightarrow> error + ostream" where
  "Logger_log_os log_type message L os =
     (case map_at (flags_logs_enabled L) log_type of
        Inl e \<Rightarrow> Inl e
      | Inr enabled \<Rightarrow>
          if enabled
          then (case map_at (logs_headers L) log_type of
                  Inl e \<Rightarrow> Inl e
                | Inr header \<Rightarrow>
                    Inr (ostream_put (newline L) (ostream_put message
                          (ostream_put (separator L) (ostream_put header os)))))
          else Inr os)"

text \<open>
  \<^verbatim>\<open>Logger::log(log_type, message, file_name, mode) const\<close> (logger.cpp, lines 69-81):
  the returned flag and the file system afterwards. An exception leaves the file system
  behind as well: when the header lookup throws, the file has already been opened.
\<close>

definition Logger_log_file ::
  "LOG_TYPE \<Rightarrow> string \<Rightarrow> string \<Rightarrow> openmode \<Rightarrow> Logger \<Rightarrow> file_system
     \<Rightarrow> (error \<times> file_system) + (bool \<times> file_system)" where
  "Logger_log_file log_type message file_name mode L fs =
     (case map_at (flags_logs_enabled L) log_type of
        Inl e \<Rightarrow> Inl (e, fs)
      | Inr enabled \<Rightarrow>
          if enabled
          then (case ofstream_open file_name mode fs of
                  None \<Rightarrow> Inr (False, fs)
                | Some fs1 \<Rightarrow>
                    (case map_at (logs_headers L) log_type of
                       Inl e \<Rightarrow> Inl (e, fs1)
                     | Inr header \<Rightarrow>
                         Inr (True,
                              ofstream_put file_name (newline L) (ofstream_put file_name message
                                (ofstream_put file_name (separator L)
                                  (ofstream_put file_name header fs1))))))
          else Inr (True, fs))"

text \<open>
  The range-for loop of the three dumps, \<^verbatim>\<open>for(const auto & line : buffer_) os << line << newline_;\<close>,
  over the stream's own \<^verbatim>\<open>operator<<\<close>.
\<close>

fun write_lines :: "(string \<Rightarrow> 's \<Rightarrow> 's) \<Rightarrow> string list \<Rightarrow> string \<Rightarrow> 's \<Rightarrow> 's" where
  "write_lines put [] nl os = os"
| "write_lines put (line # lines) nl os = write_lines put lines nl (put nl (put line os))"

text \<open>
  \<^verbatim>\<open>Logger::dump(std::ostream & os)\<close> (logger.cpp, lines 82-87), on a stream in good
  state, where every write appends. The same function over a stream whose writes can drop
  the characters or throw is \<open>Logger_dump_os_exn\<close> below.
\<close>

definition Logger_dump_os :: "Logger \<Rightarrow> ostream \<Rightarrow> Logger \<times> ostream" where
  "Logger_dump_os L os =
     (L\<lparr>buffer := []\<rparr>, write_lines ostream_put (buffer L) (newline L) os)"

text \<open>
  \<^verbatim>\<open>Logger::dump(file_name, mode)\<close> (logger.cpp, lines 88-99): the returned flag, the
  logger and the file system afterwards.
\<close>

definition Logger_dump_file ::
  "string \<Rightarrow> openmode \<Rightarrow> Logger \<Rightarrow> file_system \<Rightarrow> bool \<times> Logger \<times> file_system" where
  "Logger_dump_file file_name mode L fs =
     (case ofstream_open file_name mode fs of
        None \<Rightarrow> (False, L, fs)
      | Some fs1 \<Rightarrow>
          (True, L\<lparr>buffer := []\<rparr>,
           write_lines (ofstream_put file_name) (buffer L) (newline L) fs1))"

text \<open>
  The templates for a user stream (logger.h, lines 195-211). The stream is any state
  \<open>'s\<close> with its \<^verbatim>\<open>operator<<(const char *)\<close>, here \<open>put\<close>; every component is
  handed over through \<^verbatim>\<open>c_str()\<close>. Here \<open>put\<close> always returns; the template dump
  over a user stream whose \<^verbatim>\<open>operator<<\<close> can throw is \<open>Logger_dump_tmpl_exn\<close>
  below.
\<close>

definition Logger_log_tmpl ::
  "(string \<Rightarrow> 's \<Rightarrow> 's) \<Rightarrow> LOG_TYPE \<Rightarrow> string \<Rightarrow> Logger \<Rightarrow> 's \<Rightarrow> error + 's" where
  "Logger_log_tmpl put log_type message L stream =
     (case map_at (flags_logs_enabled L) log_type of
        Inl e \<Rightarrow> Inl e
      | Inr enabled \<Rightarrow>
          if enabled
          then (case map_at (logs_headers L) log_type of
                  Inl e \<Rightarrow> Inl e
                | Inr header \<Rightarrow>
                    Inr (put (c_str (newline L)) (put (c_str message)
                          (put (c_str (separator L)) (put (c_str header) stream)))))
          else Inr stream)"

definition Logger_dump_tmpl :: "(string \<Rightarrow> 's \<Rightarrow> 's) \<Rightarrow> Logger \<Rightarrow> 's \<Rightarrow> Logger \<times> 's" where
  "Logger_dump_tmpl put L stream =
     (L\<lparr>buffer := []\<rparr>,
      write_lines (\<lambda>s. put (c_str s)) (buffer L) (newline L) stream)"

section \<open>SLogger\<close>

text \<open>The initial values of the static members (logger.cpp, lines 101-105).\<close>

definition SLogger_init :: SLogger where
  "SLogger_init =
     \<lparr>INFO_ENABLED_FLAG = True, WARNING_ENABLED_FLAG = True, ERROR_ENABLED_FLAG = True,
      FATAL_ENABLED_FLAG = True, NEWLINE = [CHR 0x0A]\<rparr>"

text \<open>\<^verbatim>\<open>SLogger::log(log_type, message, os)\<close> (logger.cpp, lines 107-119).\<close>

definition SLogger_log_os :: "LOG_TYPE \<Rightarrow> string \<Rightarrow> SLogger \<Rightarrow> ostream \<Rightarrow> ostream" where
  "SLogger_log_os log_type message S os =
     (case log_type of
        INFO \<Rightarrow>
          if INFO_ENABLED_FLAG S
          then ostream_put (NEWLINE S) (ostream_put message (ostream_put ''[INFO] - '' os))
          else os
      | WARNING \<Rightarrow>
          if WARNING_ENABLED_FLAG S
          then ostream_put (NEWLINE S) (ostream_put message (ostream_put ''[WARNING] - '' os))
          else os
      | ERROR \<Rightarrow>
          if ERROR_ENABLED_FLAG S
          then ostream_put (NEWLINE S) (ostream_put message (ostream_put ''[ERROR] - '' os))
          else os
      | FATAL \<Rightarrow>
          if FATAL_ENABLED_FLAG S
          then ostream_put (NEWLINE S) (ostream_put message (ostream_put ''[WARNING] - '' os))
          else os)"

text \<open>
  The body the four cases of the file overload share but for the flag and the literal:
  open, return \<^verbatim>\<open>false\<close> when the open failed, write, close.
\<close>

definition SLogger_write_file ::
  "string \<Rightarrow> string \<Rightarrow> string \<Rightarrow> string \<Rightarrow> openmode \<Rightarrow> file_system \<Rightarrow> bool \<times> file_system" where
  "SLogger_write_file prefix message nl file_name mode fs =
     (case ofstream_open file_name mode fs of
        None \<Rightarrow> (False, fs)
      | Some fs1 \<Rightarrow>
          (True, ofstream_put file_name nl (ofstream_put file_name message
                   (ofstream_put file_name prefix fs1))))"

text \<open>\<^verbatim>\<open>SLogger::log(log_type, message, file_name, mode)\<close> (logger.cpp, lines 120-161).\<close>

definition SLogger_log_file ::
  "LOG_TYPE \<Rightarrow> string \<Rightarrow> string \<Rightarrow> openmode \<Rightarrow> SLogger \<Rightarrow> file_system \<Rightarrow> bool \<times> file_system" where
  "SLogger_log_file log_type message file_name mode S fs =
     (case log_type of
        INFO \<Rightarrow>
          if INFO_ENABLED_FLAG S
          then SLogger_write_file ''[INFO] - '' message (NEWLINE S) file_name mode fs
          else (True, fs)
      | WARNING \<Rightarrow>
          if WARNING_ENABLED_FLAG S
          then SLogger_write_file ''[WARNING] - '' message (NEWLINE S) file_name mode fs
          else (True, fs)
      | ERROR \<Rightarrow>
          if ERROR_ENABLED_FLAG S
          then SLogger_write_file ''[ERROR] - '' message (NEWLINE S) file_name mode fs
          else (True, fs)
      | FATAL \<Rightarrow>
          if FATAL_ENABLED_FLAG S
          then SLogger_write_file ''[FATAL] - '' message (NEWLINE S) file_name mode fs
          else (True, fs))"

text \<open>
  The template \<^verbatim>\<open>SLogger::log<StreamT>\<close> (logger.h, lines 258-271): the literal is
  written as it is, message and newline through \<^verbatim>\<open>c_str()\<close>.
\<close>

definition SLogger_log_tmpl ::
  "(string \<Rightarrow> 's \<Rightarrow> 's) \<Rightarrow> LOG_TYPE \<Rightarrow> string \<Rightarrow> SLogger \<Rightarrow> 's \<Rightarrow> 's" where
  "SLogger_log_tmpl put log_type message S stream =
     (case log_type of
        INFO \<Rightarrow>
          if INFO_ENABLED_FLAG S
          then put (c_str (NEWLINE S)) (put (c_str message) (put ''[INFO] - '' stream))
          else stream
      | WARNING \<Rightarrow>
          if WARNING_ENABLED_FLAG S
          then put (c_str (NEWLINE S)) (put (c_str message) (put ''[WARNING] - '' stream))
          else stream
      | ERROR \<Rightarrow>
          if ERROR_ENABLED_FLAG S
          then put (c_str (NEWLINE S)) (put (c_str message) (put ''[ERROR] - '' stream))
          else stream
      | FATAL \<Rightarrow>
          if FATAL_ENABLED_FLAG S
          then put (c_str (NEWLINE S)) (put (c_str message) (put ''[WARNING] - '' stream))
          else stream)"

section \<open>The states a Logger can be in\<close>

text \<open>
  A Logger is built by one of the two constructors and changed by the public member
  functions that are not \<^verbatim>\<open>const\<close>; copying and moving are deleted.
\<close>

inductive reachable :: "Logger \<Rightarrow> bool" where
  init: "reachable Logger_init"
| init_capacity: "reachable (Logger_init_capacity n)"
| setEnabled: "reachable L \<Longrightarrow> reachable (Logger_setEnabled log_type enabled L)"
| setEnabledAll: "reachable L \<Longrightarrow> reachable (Logger_setEnabledAll enabled L)"
| setHeader: "reachable L \<Longrightarrow> reachable (Logger_setHeader log_type header L)"
| setSeparator: "reachable L \<Longrightarrow> reachable (Logger_setSeparator sep L)"
| setNewline: "reachable L \<Longrightarrow> reachable (Logger_setNewline nl L)"
| log: "reachable L \<Longrightarrow> reachable (Logger_log log_type message L)"
| dump_os: "reachable L \<Longrightarrow> reachable (fst (Logger_dump_os L os))"
| dump_file: "reachable L \<Longrightarrow> reachable (fst (snd (Logger_dump_file file_name mode L fs)))"
| dump_tmpl:
    "reachable L \<Longrightarrow> reachable (fst (Logger_dump_tmpl (put :: string \<Rightarrow> string list \<Rightarrow> string list) L stream))"

section \<open>Sequences of calls\<close>

text \<open>
  The member functions that configure a Logger or buffer a message, as values, so that a
  sequence of calls can be run from a state.
\<close>

datatype Logger_call =
    Call_log LOG_TYPE string
  | Call_setHeader LOG_TYPE string
  | Call_setSeparator string
  | Call_setNewline string
  | Call_setEnabled LOG_TYPE bool
  | Call_setEnabledAll bool

fun call :: "Logger_call \<Rightarrow> Logger \<Rightarrow> Logger" where
  "call (Call_log log_type message) L = Logger_log log_type message L"
| "call (Call_setHeader log_type header) L = Logger_setHeader log_type header L"
| "call (Call_setSeparator sep) L = Logger_setSeparator sep L"
| "call (Call_setNewline nl) L = Logger_setNewline nl L"
| "call (Call_setEnabled log_type enabled) L = Logger_setEnabled log_type enabled L"
| "call (Call_setEnabledAll enabled) L = Logger_setEnabledAll enabled L"

fun calls :: "Logger_call list \<Rightarrow> Logger \<Rightarrow> Logger" where
  "calls [] L = L"
| "calls (c # cs) L = calls cs (call c L)"

text \<open>
  The specification's account of the buffer, to compare the code with: a buffered log call
  of an enabled log type contributes one entry, the header and the separator in effect at
  the time of that call followed by the message, without the newline; no other call
  contributes or changes an entry.
\<close>

fun entry_at_log_time :: "Logger_call \<Rightarrow> Logger \<Rightarrow> string list" where
  "entry_at_log_time (Call_log log_type message) L =
     (case (Logger_isEnabled L log_type, Logger_header L log_type) of
        (Inr True, Inr header) \<Rightarrow> [header @ Logger_separator L @ message]
      | _ \<Rightarrow> [])"
| "entry_at_log_time _ L = []"

fun entries_at_log_time :: "Logger_call list \<Rightarrow> Logger \<Rightarrow> string list" where
  "entries_at_log_time [] L = []"
| "entries_at_log_time (c # cs) L = entry_at_log_time c L @ entries_at_log_time cs (call c L)"

section \<open>Sinks whose writes can fail\<close>

text \<open>
  The two dumps to a stream, \<^verbatim>\<open>Logger::dump(std::ostream &)\<close> (logger.cpp, lines
  82-87) and the template \<^verbatim>\<open>Logger::dump<StreamT>\<close> (logger.h, lines 205-211), once
  more, now over a sink whose \<^verbatim>\<open>operator<<\<close> need not succeed. A write either
  returns, with the sink in the state the write left it in (which may hold nothing of what
  was handed over), or throws, which is \<open>Inl\<close> of the exception and the state of
  the sink at the throw. Neither function catches anything, so an exception leaves the
  loop and the function at once: \<^verbatim>\<open>buffer_.clear()\<close>, the statement after the loop,
  is not reached.
\<close>

fun write_lines_exn ::
  "(string \<Rightarrow> 's \<Rightarrow> ('e \<times> 's) + 's) \<Rightarrow> string list \<Rightarrow> string \<Rightarrow> 's \<Rightarrow> ('e \<times> 's) + 's" where
  "write_lines_exn put [] nl os = Inr os"
| "write_lines_exn put (line # lines) nl os =
     (case put line os of
        Inl thrown \<Rightarrow> Inl thrown
      | Inr os1 \<Rightarrow>
          (case put nl os1 of
             Inl thrown \<Rightarrow> Inl thrown
           | Inr os2 \<Rightarrow> write_lines_exn put lines nl os2))"

text \<open>
  The result of a dump is \<open>Inr\<close> of the Logger and the sink when the function
  returns, and \<open>Inl\<close> of the exception, the Logger and the sink when it is left by
  an exception.
\<close>

definition Logger_dump_os_exn ::
  "(string \<Rightarrow> 's \<Rightarrow> ('e \<times> 's) + 's) \<Rightarrow> Logger \<Rightarrow> 's \<Rightarrow> ('e \<times> Logger \<times> 's) + (Logger \<times> 's)" where
  "Logger_dump_os_exn put L os =
     (case write_lines_exn put (buffer L) (newline L) os of
        Inl (e, os') \<Rightarrow> Inl (e, L, os')
      | Inr os' \<Rightarrow> Inr (L\<lparr>buffer := []\<rparr>, os'))"

definition Logger_dump_tmpl_exn ::
  "(string \<Rightarrow> 's \<Rightarrow> ('e \<times> 's) + 's) \<Rightarrow> Logger \<Rightarrow> 's \<Rightarrow> ('e \<times> Logger \<times> 's) + (Logger \<times> 's)" where
  "Logger_dump_tmpl_exn put L stream =
     (case write_lines_exn (\<lambda>s. put (c_str s)) (buffer L) (newline L) stream of
        Inl (e, stream') \<Rightarrow> Inl (e, L, stream')
      | Inr stream' \<Rightarrow> Inr (L\<lparr>buffer := []\<rparr>, stream'))"





section \<open>Helper facts\<close>

subsection \<open>Streams and files\<close>

lemma write_lines_ostream:
  "write_lines ostream_put ls nl os = os @ concat (map (\<lambda>l. l @ nl) ls)"
  by (induction ls arbitrary: os) (simp_all add: ostream_put_def)

lemma ofstream_put_Some:
  "files fs file_name = Some old \<Longrightarrow>
   ofstream_put file_name s fs = fs\<lparr>files := (files fs)(file_name \<mapsto> old @ s)\<rparr>"
  by (simp add: ofstream_put_def)


lemma ofstream_open_files:
  "ofstream_open file_name mode fs = Some fs1 \<Longrightarrow>
     files fs1 file_name = Some (opened_contents mode (files fs file_name)) \<and>
     fs1 = fs\<lparr>files := (files fs)(file_name \<mapsto> opened_contents mode (files fs file_name))\<rparr>"
  by (auto simp add: ofstream_open_def split: if_splits)




subsection \<open>Lookups\<close>

lemma isEnabled_Inr: "Logger_isEnabled L t = Inr b \<longleftrightarrow> flags_logs_enabled L t = Some b"
  by (simp add: Logger_isEnabled_def map_at_def split: option.splits)

lemma header_Inr: "Logger_header L t = Inr h \<longleftrightarrow> logs_headers L t = Some h"
  by (simp add: Logger_header_def map_at_def split: option.splits)

lemma wf_lookup:
  assumes "dom (flags_logs_enabled L) = UNIV" "dom (logs_headers L) = UNIV"
  shows "\<exists>b. flags_logs_enabled L t = Some b" "\<exists>h. logs_headers L t = Some h"
  using assms by (auto simp add: dom_def)

lemma Logger_init_total:
  "dom (flags_logs_enabled Logger_init) = UNIV \<and> dom (logs_headers Logger_init) = UNIV"
proof -
  have "t \<in> dom (flags_logs_enabled Logger_init)" for t
    by (cases t) (simp_all add: Logger_init_def)
  moreover have "t \<in> dom (logs_headers Logger_init)" for t
    by (cases t) (simp_all add: Logger_init_def)
  ultimately show ?thesis by blast
qed

subsection \<open>Both maps stay total\<close>

lemma reachable_wf:
  "reachable L \<Longrightarrow> dom (flags_logs_enabled L) = UNIV \<and> dom (logs_headers L) = UNIV"
proof (induction rule: reachable.induct)
  case init
  show ?case by (rule Logger_init_total)
next
  case (init_capacity n)
  show ?case using Logger_init_total by (simp add: Logger_init_capacity_def)
next
  case (setEnabled L log_type enabled)
  then show ?case by (auto simp add: Logger_setEnabled_def dom_def)
next
  case (setEnabledAll L enabled)
  then show ?case by (auto simp add: Logger_setEnabledAll_def dom_def)
next
  case (setHeader L log_type header)
  then show ?case by (auto simp add: Logger_setHeader_def dom_def)
next
  case (setSeparator L sep)
  then show ?case by (simp add: Logger_setSeparator_def)
next
  case (setNewline L nl)
  then show ?case by (simp add: Logger_setNewline_def)
next
  case (log L log_type message)
  then show ?case
    by (auto simp add: Logger_log_def map_index_def Let_def dom_def split: option.splits)
next
  case (dump_os L os)
  then show ?case by (simp add: Logger_dump_os_def)
next
  case (dump_file L file_name mode fs)
  then show ?case by (simp add: Logger_dump_file_def split: option.splits)
next
  case (dump_tmpl L put stream)
  then show ?case by (simp add: Logger_dump_tmpl_def)
qed

lemma reachable_call: "reachable L \<Longrightarrow> reachable (call c L)"
  by (cases c) (simp_all add: reachable.intros)

subsection \<open>Dumps to a sink whose writes can fail\<close>






lemma Logger_dump_exn_cases:
  "(Logger_dump_os_exn put L os = Inr (L', os') \<longrightarrow> L' = L\<lparr>buffer := []\<rparr>) \<and>
   (Logger_dump_os_exn put L os = Inl (e, L', os') \<longrightarrow> L' = L) \<and>
   (Logger_dump_tmpl_exn put L os = Inr (L', os') \<longrightarrow> L' = L\<lparr>buffer := []\<rparr>) \<and>
   (Logger_dump_tmpl_exn put L os = Inl (e, L', os') \<longrightarrow> L' = L)"
  by (auto simp add: Logger_dump_os_exn_def Logger_dump_tmpl_exn_def split: sum.splits)


lemma reachable_dump_exn:
  assumes "reachable L"
  shows "Logger_dump_os_exn put L os = Inr (L', os') \<Longrightarrow> reachable L'"
    and "Logger_dump_os_exn put L os = Inl (e, L', os') \<Longrightarrow> reachable L'"
    and "Logger_dump_tmpl_exn put L os = Inr (L', os') \<Longrightarrow> reachable L'"
    and "Logger_dump_tmpl_exn put L os = Inl (e, L', os') \<Longrightarrow> reachable L'"
proof -
  have "reachable (fst (Logger_dump_os L []))"
    using assms by (rule reachable.dump_os)
  then have cleared: "reachable (L\<lparr>buffer := []\<rparr>)"
    by (simp add: Logger_dump_os_def)
  note c = Logger_dump_exn_cases [of put L os L' os' e]
  show "Logger_dump_os_exn put L os = Inr (L', os') \<Longrightarrow> reachable L'"
    using c cleared by simp
  show "Logger_dump_os_exn put L os = Inl (e, L', os') \<Longrightarrow> reachable L'"
    using c assms by simp
  show "Logger_dump_tmpl_exn put L os = Inr (L', os') \<Longrightarrow> reachable L'"
    using c cleared by simp
  show "Logger_dump_tmpl_exn put L os = Inl (e, L', os') \<Longrightarrow> reachable L'"
    using c assms by simp
qed

subsection \<open>The operations on total maps\<close>

lemma Logger_log_total_maps:
  assumes "flags_logs_enabled L t = Some b" "logs_headers L t = Some h"
  shows "Logger_log t m L = (if b then L\<lparr>buffer := buffer L @ [h @ separator L @ m]\<rparr> else L)"
  using assms by (simp add: Logger_log_def map_index_def)



lemma Logger_log_file_enabled:
  assumes "flags_logs_enabled L t = Some True" "logs_headers L t = Some h"
  shows "Logger_log_file t m file_name mode L fs =
           Inr (can_open fs file_name,
                if can_open fs file_name
                then fs\<lparr>files := (files fs)(file_name \<mapsto>
                       opened_contents mode (files fs file_name) @
                       h @ separator L @ m @ newline L)\<rparr>
                else fs)"
proof (cases "can_open fs file_name")
  case False
  then show ?thesis
    using assms by (simp add: Logger_log_file_def map_at_def ofstream_open_def)
next
  case True
  then obtain fs1 where o: "ofstream_open file_name mode fs = Some fs1"
    by (simp add: ofstream_open_def)
  note f = ofstream_open_files [OF o]
  let ?c = "opened_contents mode (files fs file_name)"
  have p1: "ofstream_put file_name h fs1 = fs1\<lparr>files := (files fs1)(file_name \<mapsto> ?c @ h)\<rparr>"
    using f by (intro ofstream_put_Some) simp
  have p2: "ofstream_put file_name (separator L)
              (fs1\<lparr>files := (files fs1)(file_name \<mapsto> ?c @ h)\<rparr>) =
            fs1\<lparr>files := (files fs1)(file_name \<mapsto> ?c @ h @ separator L)\<rparr>"
    by (simp add: ofstream_put_def)
  have p3: "ofstream_put file_name m
              (fs1\<lparr>files := (files fs1)(file_name \<mapsto> ?c @ h @ separator L)\<rparr>) =
            fs1\<lparr>files := (files fs1)(file_name \<mapsto> ?c @ h @ separator L @ m)\<rparr>"
    by (simp add: ofstream_put_def)
  have p4: "ofstream_put file_name (newline L)
              (fs1\<lparr>files := (files fs1)(file_name \<mapsto> ?c @ h @ separator L @ m)\<rparr>) =
            fs1\<lparr>files := (files fs1)(file_name \<mapsto> ?c @ h @ separator L @ m @ newline L)\<rparr>"
    by (simp add: ofstream_put_def)
  have "fs1 = fs\<lparr>files := (files fs)(file_name \<mapsto> ?c)\<rparr>"
    using f by blast
  then have same: "fs1\<lparr>files := (files fs1)(file_name \<mapsto> ?c @ h @ separator L @ m @ newline L)\<rparr> =
             fs\<lparr>files := (files fs)(file_name \<mapsto> ?c @ h @ separator L @ m @ newline L)\<rparr>"
    by simp
  show ?thesis
    using assms True by (simp add: Logger_log_file_def map_at_def o p1 p2 p3 p4 same)
qed

lemma Logger_log_file_disabled:
  "flags_logs_enabled L t = Some False \<Longrightarrow>
   Logger_log_file t m file_name mode L fs = Inr (True, fs)"
  by (simp add: Logger_log_file_def map_at_def)

lemma buffer_call:
  assumes "reachable L"
  shows "buffer (call c L) = buffer L @ entry_at_log_time c L"
proof (cases c)
  case (Call_log t m)
  from assms have wf: "dom (flags_logs_enabled L) = UNIV" "dom (logs_headers L) = UNIV"
    using reachable_wf by blast+
  obtain b h where look: "flags_logs_enabled L t = Some b" "logs_headers L t = Some h"
    using wf_lookup [OF wf] by blast
  show ?thesis
    using look
    by (simp add: Call_log Logger_log_total_maps [OF look] Logger_isEnabled_def Logger_header_def
        Logger_separator_def map_at_def)
qed (simp_all add: Logger_setHeader_def Logger_setSeparator_def Logger_setNewline_def
      Logger_setEnabled_def Logger_setEnabledAll_def)

lemma buffer_calls:
  "reachable L \<Longrightarrow> buffer (calls cs L) = buffer L @ entries_at_log_time cs L"
proof (induction cs arbitrary: L)
  case Nil
  then show ?case by simp
next
  case (Cons c cs)
  from Cons.prems have "reachable (call c L)" by (rule reachable_call)
  then have "buffer (calls cs (call c L)) = buffer (call c L) @ entries_at_log_time cs (call c L)"
    by (rule Cons.IH)
  then show ?case using buffer_call [OF Cons.prems, of c] by simp
qed

section \<open>SLogger: the header of a FATAL message\<close>

lemma SLogger_own_headers:
  "SLogger_log_os INFO m S os =
     (if INFO_ENABLED_FLAG S then os @ ''[INFO] - '' @ m @ NEWLINE S else os) \<and>
   SLogger_log_os WARNING m S os =
     (if WARNING_ENABLED_FLAG S then os @ ''[WARNING] - '' @ m @ NEWLINE S else os) \<and>
   SLogger_log_os ERROR m S os =
     (if ERROR_ENABLED_FLAG S then os @ ''[ERROR] - '' @ m @ NEWLINE S else os) \<and>
   SLogger_log_tmpl ostream_put INFO m S os =
     (if INFO_ENABLED_FLAG S then os @ ''[INFO] - '' @ c_str m @ c_str (NEWLINE S) else os) \<and>
   SLogger_log_tmpl ostream_put WARNING m S os =
     (if WARNING_ENABLED_FLAG S then os @ ''[WARNING] - '' @ c_str m @ c_str (NEWLINE S) else os) \<and>
   SLogger_log_tmpl ostream_put ERROR m S os =
     (if ERROR_ENABLED_FLAG S then os @ ''[ERROR] - '' @ c_str m @ c_str (NEWLINE S) else os) \<and>
   SLogger_log_file INFO m file_name mode S fs =
     (if INFO_ENABLED_FLAG S
      then SLogger_write_file ''[INFO] - '' m (NEWLINE S) file_name mode fs else (True, fs)) \<and>
   SLogger_log_file WARNING m file_name mode S fs =
     (if WARNING_ENABLED_FLAG S
      then SLogger_write_file ''[WARNING] - '' m (NEWLINE S) file_name mode fs else (True, fs)) \<and>
   SLogger_log_file ERROR m file_name mode S fs =
     (if ERROR_ENABLED_FLAG S
      then SLogger_write_file ''[ERROR] - '' m (NEWLINE S) file_name mode fs else (True, fs))"
  by (simp add: SLogger_log_os_def SLogger_log_tmpl_def SLogger_log_file_def ostream_put_def)

text \<open>
  C1: what the three SLogger paths write for a FATAL message. The template writes the
  literal \<^verbatim>\<open>[WARNING] - \<close> and the file overload writes \<^verbatim>\<open>[FATAL] - \<close>, as
  the specification says; the \<^verbatim>\<open>std::ostream\<close> overload, for which the
  specification says \<^verbatim>\<open>[FATAL]\<close>, writes \<^verbatim>\<open>[WARNING] - \<close> as well. With the
  initial flags, \<^verbatim>\<open>SLogger::log(FATAL, "x", os)\<close> on an empty stream gives
  \<^verbatim>\<open>[WARNING] - x\n\<close>. The other three log types get their own header on every
  path (the lemma before).
\<close>

theorem SLogger_FATAL_header_by_path:
  "SLogger_log_tmpl ostream_put FATAL m S os =
     (if FATAL_ENABLED_FLAG S then os @ ''[WARNING] - '' @ c_str m @ c_str (NEWLINE S) else os) \<and>
   SLogger_log_os FATAL m S os =
     (if FATAL_ENABLED_FLAG S then os @ ''[WARNING] - '' @ m @ NEWLINE S else os) \<and>
   SLogger_log_file FATAL m file_name mode S fs =
     (if FATAL_ENABLED_FLAG S
      then if can_open fs file_name
           then (True, fs\<lparr>files := (files fs)(file_name \<mapsto>
                   opened_contents mode (files fs file_name) @ ''[FATAL] - '' @ m @ NEWLINE S)\<rparr>)
           else (False, fs)
      else (True, fs)) \<and>
   SLogger_log_os FATAL ''x'' SLogger_init [] = ''[WARNING] - x'' @ [CHR 0x0A]"
  by (simp add: SLogger_log_os_def SLogger_log_tmpl_def SLogger_log_file_def
      SLogger_write_file_def SLogger_init_def ostream_put_def ofstream_open_def ofstream_put_def)

section \<open>Logger: dumping the buffer\<close>




section \<open>Logger: what is fixed at log time and what at dump time\<close>

text \<open>
  C3: from any state a Logger can be in, after any sequence of buffered log calls and
  changes of the header, the separator, the newline and the flags, the buffer holds, after
  what it held, one entry per enabled log call: the header and the separator in effect at
  that call, then the message, and no newline. A dump follows every line with the newline
  in effect at the dump. Hence \<^verbatim>\<open>setNewline\<close> before a dump changes what follows every
  line buffered earlier, and \<^verbatim>\<open>setHeader\<close> or \<^verbatim>\<open>setSeparator\<close> before a dump
  changes nothing of what is dumped.
\<close>

theorem Logger_entries_fixed_at_log_time:
  assumes "reachable L"
  shows "buffer (calls cs L) = buffer L @ entries_at_log_time cs L \<and>
         snd (Logger_dump_os (calls cs L) os) =
           os @ concat (map (\<lambda>e. e @ Logger_newline (calls cs L))
                  (buffer L @ entries_at_log_time cs L)) \<and>
         snd (Logger_dump_os (Logger_setNewline nl L) os) =
           os @ concat (map (\<lambda>e. e @ nl) (buffer L)) \<and>
         snd (Logger_dump_os (Logger_setHeader t h L) os) = snd (Logger_dump_os L os) \<and>
         snd (Logger_dump_os (Logger_setSeparator sep L) os) = snd (Logger_dump_os L os)"
  using buffer_calls [OF assms, of cs]
  by (simp add: Logger_dump_os_def write_lines_ostream Logger_newline_def Logger_setNewline_def
      Logger_setHeader_def Logger_setSeparator_def)

theorem Logger_entries_fixed_at_log_time_witness:
  "reachable Logger_init \<and>
   snd (Logger_dump_os
         (calls [Call_log INFO ''a'', Call_setHeader INFO ''<i>'', Call_setSeparator '': '',
                 Call_setNewline [CHR 0x0D, CHR 0x0A], Call_log INFO ''b''] Logger_init) []) =
     ''[INFO] - a'' @ [CHR 0x0D, CHR 0x0A] @ ''<i>: b'' @ [CHR 0x0D, CHR 0x0A]"
proof -
  let ?cs = "[Call_log INFO ''a'', Call_setHeader INFO ''<i>'', Call_setSeparator '': '',
              Call_setNewline [CHR 0x0D, CHR 0x0A], Call_log INFO ''b'']"
  have r: "reachable Logger_init" by (rule reachable.init)
  have e: "entries_at_log_time ?cs Logger_init = [''[INFO] - a'', ''<i>: b'']"
    by (simp add: Logger_init_def Logger_log_def Logger_setHeader_def Logger_setSeparator_def
        Logger_setNewline_def Logger_isEnabled_def Logger_header_def Logger_separator_def
        map_at_def map_index_def)
  have n: "Logger_newline (calls ?cs Logger_init) = [CHR 0x0D, CHR 0x0A]"
    by (simp add: Logger_init_def Logger_log_def Logger_setHeader_def Logger_setSeparator_def
        Logger_setNewline_def Logger_newline_def map_index_def)
  have b: "buffer Logger_init = []" by (simp add: Logger_init_def)
  from Logger_entries_fixed_at_log_time [OF r, of ?cs "[]"]
  have dumped: "snd (Logger_dump_os (calls ?cs Logger_init) []) =
          [] @ concat (map (\<lambda>e. e @ Logger_newline (calls ?cs Logger_init))
                 (buffer Logger_init @ entries_at_log_time ?cs Logger_init))"
    by blast
  have "[] @ concat (map (\<lambda>e. e @ Logger_newline (calls ?cs Logger_init))
                 (buffer Logger_init @ entries_at_log_time ?cs Logger_init)) =
        ''[INFO] - a'' @ [CHR 0x0D, CHR 0x0A] @ ''<i>: b'' @ [CHR 0x0D, CHR 0x0A]"
    unfolding e n b by simp
  with dumped r show ?thesis by metis
qed

section \<open>Logger: logging into a file\<close>

text \<open>
  C4: on a Logger in a state it can be in, \<^verbatim>\<open>log(log_type, message, file_name, mode)\<close>
  for an enabled log type returns \<^verbatim>\<open>false\<close> exactly when the file cannot be opened;
  when it can, the file holds afterwards what it held on opening followed by the one line
  header, separator, message, newline; when it cannot, the file system is as before. The
  function is \<^verbatim>\<open>const\<close> and returns nothing else, so nothing is buffered. For a
  disabled log type it returns \<^verbatim>\<open>true\<close> and the file system is as before.
\<close>

theorem Logger_log_file_result:
  assumes "reachable L"
  shows "(Logger_isEnabled L t = Inr True \<longrightarrow>
            (\<exists>h. Logger_header L t = Inr h \<and>
                 Logger_log_file t m file_name mode L fs =
                   Inr (can_open fs file_name,
                        if can_open fs file_name
                        then fs\<lparr>files := (files fs)(file_name \<mapsto>
                               opened_contents mode (files fs file_name) @
                               h @ Logger_separator L @ m @ Logger_newline L)\<rparr>
                        else fs))) \<and>
         (Logger_isEnabled L t = Inr False \<longrightarrow>
            Logger_log_file t m file_name mode L fs = Inr (True, fs))"
proof -
  from assms have wf: "dom (flags_logs_enabled L) = UNIV" "dom (logs_headers L) = UNIV"
    using reachable_wf by blast+
  obtain h where h: "logs_headers L t = Some h"
    using wf_lookup(2) [OF wf] by blast
  show ?thesis
    using h Logger_log_file_enabled [of L t h m file_name mode fs]
      Logger_log_file_disabled [of L t m file_name mode fs]
    by (simp add: isEnabled_Inr header_Inr Logger_separator_def Logger_newline_def)
qed

theorem Logger_log_file_result_witness:
  "reachable Logger_init \<and> Logger_isEnabled Logger_init ERROR = Inr True \<and>
   Logger_log_file ERROR ''disk'' ''app.log'' ios_app Logger_init
       \<lparr>files = [''app.log'' \<mapsto> ''old''], can_open = (\<lambda>n. n = ''app.log'')\<rparr> =
     Inr (True, \<lparr>files = [''app.log'' \<mapsto> ''old[ERROR] - disk'' @ [CHR 0x0A]],
                 can_open = (\<lambda>n. n = ''app.log'')\<rparr>) \<and>
   Logger_log_file ERROR ''disk'' ''no/such/dir/app.log'' ios_out Logger_init
       \<lparr>files = [''app.log'' \<mapsto> ''old''], can_open = (\<lambda>n. n = ''app.log'')\<rparr> =
     Inr (False, \<lparr>files = [''app.log'' \<mapsto> ''old''], can_open = (\<lambda>n. n = ''app.log'')\<rparr>) \<and>
   reachable (Logger_setEnabled ERROR False Logger_init) \<and>
   Logger_isEnabled (Logger_setEnabled ERROR False Logger_init) ERROR = Inr False \<and>
   Logger_log_file ERROR ''disk'' ''app.log'' ios_out (Logger_setEnabled ERROR False Logger_init)
       \<lparr>files = [''app.log'' \<mapsto> ''old''], can_open = (\<lambda>n. n = ''app.log'')\<rparr> =
     Inr (True, \<lparr>files = [''app.log'' \<mapsto> ''old''], can_open = (\<lambda>n. n = ''app.log'')\<rparr>)"
proof -
  let ?fs = "\<lparr>files = [''app.log'' \<mapsto> ''old''], can_open = (\<lambda>n. n = ''app.log'')\<rparr>"
  let ?off = "Logger_setEnabled ERROR False Logger_init"
  have r: "reachable Logger_init" by (rule reachable.init)
  have r': "reachable ?off" using r by (rule reachable.setEnabled)
  have on: "Logger_isEnabled Logger_init ERROR = Inr True"
    by (simp add: Logger_isEnabled_def Logger_init_def map_at_def)
  have off: "Logger_isEnabled ?off ERROR = Inr False"
    by (simp add: Logger_isEnabled_def Logger_setEnabled_def map_at_def)
  have hd: "Logger_header Logger_init ERROR = Inr h \<longleftrightarrow> h = ''[ERROR]''" for h
    by (auto simp add: Logger_header_def Logger_init_def map_at_def)
  have sep: "Logger_separator Logger_init = '' - ''" "Logger_newline Logger_init = [CHR 0x0A]"
    by (simp_all add: Logger_separator_def Logger_newline_def Logger_init_def)
  from Logger_log_file_result [OF r, of ERROR "''disk''" "''app.log''" ios_app ?fs] on
  have a: "Logger_log_file ERROR ''disk'' ''app.log'' ios_app Logger_init ?fs =
             Inr (True, \<lparr>files = [''app.log'' \<mapsto> ''old[ERROR] - disk'' @ [CHR 0x0A]],
                         can_open = (\<lambda>n. n = ''app.log'')\<rparr>)"
    by (auto simp add: hd sep opened_contents_def)
  from Logger_log_file_result [OF r, of ERROR "''disk''" "''no/such/dir/app.log''" ios_out ?fs] on
  have b: "Logger_log_file ERROR ''disk'' ''no/such/dir/app.log'' ios_out Logger_init ?fs =
             Inr (False, ?fs)"
    by (auto simp add: hd sep)
  from Logger_log_file_result [OF r', of ERROR "''disk''" "''app.log''" ios_out ?fs] off
  have c: "Logger_log_file ERROR ''disk'' ''app.log'' ios_out ?off ?fs = Inr (True, ?fs)"
    by blast
  from r on a b r' off c show ?thesis by blast
qed

section \<open>Logger: a disabled log type\<close>

text \<open>
  C5: when a log type is disabled, logging a message of that type leaves the Logger as it
  was when buffered (so the buffer is as long as before), writes nothing to a
  \<^verbatim>\<open>std::ostream\<close> or to a user stream, and for a file returns \<^verbatim>\<open>true\<close> without
  changing the file system; none of them throws.
\<close>

theorem Logger_disabled_is_silent:
  assumes "Logger_isEnabled L t = Inr False"
  shows "Logger_log t m L = L \<and>
         length (buffer (Logger_log t m L)) = length (buffer L) \<and>
         Logger_log_os t m L os = Inr os \<and>
         Logger_log_tmpl put t m L stream = Inr stream \<and>
         Logger_log_file t m file_name mode L fs = Inr (True, fs)"
  using assms
  by (simp add: isEnabled_Inr Logger_log_def map_index_def Logger_log_os_def Logger_log_tmpl_def
      Logger_log_file_def map_at_def)

theorem Logger_disabled_is_silent_witness:
  "Logger_isEnabled (Logger_setEnabled WARNING False Logger_init) WARNING = Inr False \<and>
   Logger_log WARNING ''w'' (Logger_setEnabled WARNING False Logger_init) =
     Logger_setEnabled WARNING False Logger_init \<and>
   Logger_log_os WARNING ''w'' (Logger_setEnabled WARNING False Logger_init) ''abc'' = Inr ''abc'' \<and>
   Logger_log_tmpl ostream_put WARNING ''w'' (Logger_setEnabled WARNING False Logger_init) ''abc'' =
     Inr ''abc'' \<and>
   Logger_log_file WARNING ''w'' ''app.log'' ios_out (Logger_setEnabled WARNING False Logger_init)
       \<lparr>files = [''app.log'' \<mapsto> ''old''], can_open = (\<lambda>n. True)\<rparr> =
     Inr (True, \<lparr>files = [''app.log'' \<mapsto> ''old''], can_open = (\<lambda>n. True)\<rparr>)"
proof -
  have off: "Logger_isEnabled (Logger_setEnabled WARNING False Logger_init) WARNING = Inr False"
    by (simp add: Logger_isEnabled_def Logger_setEnabled_def map_at_def)
  from off Logger_disabled_is_silent [OF off, of "''w''" "''abc''" ostream_put "''abc''"
      "''app.log''" ios_out "\<lparr>files = [''app.log'' \<mapsto> ''old''], can_open = (\<lambda>n. True)\<rparr>"]
  show ?thesis by blast
qed

section \<open>Logger: the flags\<close>

text \<open>
  C8: on a Logger in a state it can be in, after \<^verbatim>\<open>setEnabledAll(false)\<close>,
  \<^verbatim>\<open>isEnabled\<close> returns \<^verbatim>\<open>false\<close> for every log type; after a following
  \<^verbatim>\<open>setEnabled(t, true)\<close>, \<^verbatim>\<open>isEnabled(t)\<close> returns \<^verbatim>\<open>true\<close>, every other log
  type answers as before that call, and the headers, the separator, the newline and the
  buffer are those of the Logger before the two calls.
\<close>

theorem Logger_setEnabledAll_then_one:
  assumes "reachable L"
  shows "(\<forall>t. Logger_isEnabled (Logger_setEnabledAll False L) t = Inr False) \<and>
         Logger_isEnabled (Logger_setEnabled t True (Logger_setEnabledAll False L)) t = Inr True \<and>
         (\<forall>t'. t' \<noteq> t \<longrightarrow>
            Logger_isEnabled (Logger_setEnabled t True (Logger_setEnabledAll False L)) t' =
            Logger_isEnabled (Logger_setEnabledAll False L) t') \<and>
         logs_headers (Logger_setEnabled t True (Logger_setEnabledAll False L)) = logs_headers L \<and>
         separator (Logger_setEnabled t True (Logger_setEnabledAll False L)) = separator L \<and>
         newline (Logger_setEnabled t True (Logger_setEnabledAll False L)) = newline L \<and>
         buffer (Logger_setEnabled t True (Logger_setEnabledAll False L)) = buffer L"
proof -
  from assms have wf: "dom (flags_logs_enabled L) = UNIV" "dom (logs_headers L) = UNIV"
    using reachable_wf by blast+
  have "Logger_isEnabled (Logger_setEnabledAll False L) t' = Inr False" for t'
  proof -
    obtain b where "flags_logs_enabled L t' = Some b"
      using wf_lookup(1) [OF wf] by blast
    then show ?thesis
      by (simp add: Logger_isEnabled_def Logger_setEnabledAll_def map_at_def)
  qed
  then show ?thesis
    by (simp add: Logger_isEnabled_def Logger_setEnabled_def Logger_setEnabledAll_def map_at_def)
qed

theorem Logger_setEnabledAll_then_one_witness:
  "reachable (Logger_log INFO ''a'' Logger_init) \<and>
   Logger_isEnabled (Logger_setEnabledAll False (Logger_log INFO ''a'' Logger_init)) FATAL =
     Inr False \<and>
   Logger_isEnabled (Logger_setEnabled WARNING True
       (Logger_setEnabledAll False (Logger_log INFO ''a'' Logger_init))) WARNING = Inr True \<and>
   Logger_isEnabled (Logger_setEnabled WARNING True
       (Logger_setEnabledAll False (Logger_log INFO ''a'' Logger_init))) ERROR = Inr False \<and>
   buffer (Logger_setEnabled WARNING True
       (Logger_setEnabledAll False (Logger_log INFO ''a'' Logger_init))) = [''[INFO] - a'']"
proof -
  let ?L = "Logger_log INFO ''a'' Logger_init"
  have r: "reachable ?L" by (rule reachable.log) (rule reachable.init)
  have b: "buffer ?L = [''[INFO] - a'']"
    by (simp add: Logger_log_def Logger_init_def map_index_def)
  have d: "ERROR \<noteq> WARNING" by simp
  note t = Logger_setEnabledAll_then_one [OF r, of WARNING]
  from t have "Logger_isEnabled (Logger_setEnabledAll False ?L) FATAL = Inr False"
    and "Logger_isEnabled (Logger_setEnabledAll False ?L) ERROR = Inr False"
    and "Logger_isEnabled (Logger_setEnabled WARNING True (Logger_setEnabledAll False ?L)) WARNING =
           Inr True"
    and "Logger_isEnabled (Logger_setEnabled WARNING True (Logger_setEnabledAll False ?L)) ERROR =
           Logger_isEnabled (Logger_setEnabledAll False ?L) ERROR"
    and "buffer (Logger_setEnabled WARNING True (Logger_setEnabledAll False ?L)) = buffer ?L"
    using d by blast+
  with r b show ?thesis by simp
qed

section \<open>Logger: no lookup fails\<close>

text \<open>
  C9: in every state a Logger can be in, built by a constructor and changed by the public
  member functions, the map of flags and the map of headers both have an entry for each
  of the four log types; so \<^verbatim>\<open>isEnabled\<close>, \<^verbatim>\<open>header\<close> and the logging functions
  that write to a stream, a user stream or a file return and never throw
  \<^verbatim>\<open>std::out_of_range\<close>.
\<close>

theorem Logger_maps_total:
  assumes "reachable L"
  shows "dom (flags_logs_enabled L) = UNIV \<and> dom (logs_headers L) = UNIV \<and>
         (\<exists>b. Logger_isEnabled L t = Inr b) \<and>
         (\<exists>h. Logger_header L t = Inr h) \<and>
         (\<exists>os'. Logger_log_os t m L os = Inr os') \<and>
         (\<exists>stream'. Logger_log_tmpl put t m L stream = Inr stream') \<and>
         (\<exists>r. Logger_log_file t m file_name mode L fs = Inr r)"
proof -
  from assms have wf: "dom (flags_logs_enabled L) = UNIV" "dom (logs_headers L) = UNIV"
    using reachable_wf by blast+
  obtain b h where look: "flags_logs_enabled L t = Some b" "logs_headers L t = Some h"
    using wf_lookup [OF wf] by blast
  show ?thesis
    using wf look
    by (auto simp add: Logger_isEnabled_def Logger_header_def Logger_log_os_def
        Logger_log_tmpl_def Logger_log_file_def map_at_def split: option.splits)
qed

theorem Logger_maps_total_witness:
  "reachable (fst (Logger_dump_os (Logger_log FATAL ''f''
      (Logger_setHeader FATAL ''!!'' (Logger_setEnabledAll False Logger_init))) [])) \<and>
   dom (flags_logs_enabled (fst (Logger_dump_os (Logger_log FATAL ''f''
      (Logger_setHeader FATAL ''!!'' (Logger_setEnabledAll False Logger_init))) []))) = UNIV \<and>
   (\<exists>b. Logger_isEnabled (fst (Logger_dump_os (Logger_log FATAL ''f''
      (Logger_setHeader FATAL ''!!'' (Logger_setEnabledAll False Logger_init))) [])) FATAL = Inr b) \<and>
   (\<exists>h. Logger_header (fst (Logger_dump_os (Logger_log FATAL ''f''
      (Logger_setHeader FATAL ''!!'' (Logger_setEnabledAll False Logger_init))) [])) INFO = Inr h)"
proof -
  let ?L = "fst (Logger_dump_os (Logger_log FATAL ''f''
      (Logger_setHeader FATAL ''!!'' (Logger_setEnabledAll False Logger_init))) [])"
  have r: "reachable ?L"
    by (intro reachable.dump_os reachable.log reachable.setHeader reachable.setEnabledAll
        reachable.init)
  from r Logger_maps_total [OF r, of FATAL "[]" "[]" ostream_put "[]" "[]" ios_out
      "\<lparr>files = Map.empty, can_open = (\<lambda>n. True)\<rparr>"]
    Logger_maps_total [OF r, of INFO "[]" "[]" ostream_put "[]" "[]" ios_out
      "\<lparr>files = Map.empty, can_open = (\<lambda>n. True)\<rparr>"]
  show ?thesis by blast
qed

section \<open>Logger: the templates against the stream overloads\<close>



section \<open>Logger: the default state\<close>

text \<open>
  C7: a Logger built by the default constructor, or by the constructor with the capacity
  hint, has all four log types enabled, the headers \<^verbatim>\<open>[INFO]\<close>, \<^verbatim>\<open>[WARNING]\<close>,
  \<^verbatim>\<open>[ERROR]\<close> and \<^verbatim>\<open>[FATAL]\<close>, the separator \<^verbatim>\<open> - \<close>, the newline \<^verbatim>\<open>\n\<close> and an
  empty buffer.
\<close>

theorem Logger_default_state:
  "Logger_init_capacity n = Logger_init \<and>
   Logger_isEnabled Logger_init INFO = Inr True \<and>
   Logger_isEnabled Logger_init WARNING = Inr True \<and>
   Logger_isEnabled Logger_init ERROR = Inr True \<and>
   Logger_isEnabled Logger_init FATAL = Inr True \<and>
   Logger_header Logger_init INFO = Inr ''[INFO]'' \<and>
   Logger_header Logger_init WARNING = Inr ''[WARNING]'' \<and>
   Logger_header Logger_init ERROR = Inr ''[ERROR]'' \<and>
   Logger_header Logger_init FATAL = Inr ''[FATAL]'' \<and>
   Logger_separator Logger_init = '' - '' \<and>
   Logger_newline Logger_init = [CHR 0x0A] \<and>
   buffer Logger_init = []"
  by (simp add: Logger_init_capacity_def vector_reserve_def Logger_init_def Logger_isEnabled_def
      Logger_header_def Logger_separator_def Logger_newline_def map_at_def)

text \<open>
  C6: on a default-constructed Logger, \<^verbatim>\<open>log(INFO, "x")\<close> followed by a dump to a
  stream writes exactly \<^verbatim>\<open>[INFO] - x\n\<close> to it (after what the stream held) and
  leaves the buffer empty.
\<close>

theorem Logger_log_dump_default:
  "snd (Logger_dump_os (Logger_log INFO ''x'' Logger_init) os) = os @ ''[INFO] - x'' @ [CHR 0x0A] \<and>
   buffer (fst (Logger_dump_os (Logger_log INFO ''x'' Logger_init) os)) = []"
  by (simp add: Logger_dump_os_def Logger_log_def Logger_init_def map_index_def
      ostream_put_def)

end
